theory Spec2Isabelle
  imports Main "HOL-Library.Word"
begin

section \<open>Go values: bytes, slices, run-time panics\<close>

text \<open>
  A Go \<^verbatim>\<open>byte\<close> is an 8-bit word, so \<^verbatim>\<open>input[63] - 27\<close> wraps modulo 256.
  A \<^verbatim>\<open>[]byte\<close> whose capacity cannot show in a result is the list of its
  elements; the nil slice is the empty list (length 0, capacity 0). The one slice whose
  capacity shows, the \<^verbatim>\<open>VRS\<close> of \<^verbatim>\<open>EcRecover\<close>, is a \<open>slice\<close> record.
  A \<^verbatim>\<open>*big.Int\<close> is an \<open>int\<close>. The Go \<^verbatim>\<open>error\<close> interface is an
  \<open>error option\<close>, \<open>None\<close> being nil.
\<close>

type_synonym byte = "8 word"

datatype error = Error string

text \<open>The two run-time panics the indexing and slicing expressions of the file can raise.\<close>

datatype panic = IndexOutOfRange | SliceBoundsOutOfRange

text \<open>Sequencing of steps that may panic: the first panic ends the call.\<close>

definition andThen :: "panic + 'a \<Rightarrow> ('a \<Rightarrow> panic + 'b) \<Rightarrow> panic + 'b" where
  "andThen m f = (case m of Inl p \<Rightarrow> Inl p | Inr a \<Rightarrow> f a)"

text \<open>
  A slice handed in by a caller: its elements, and the cells of its array that lie
  beyond its length, up to its capacity. Go bounds an index by the length and the
  bounds of a slice expression by the capacity, so \<^verbatim>\<open>s[lo:hi]\<close> can read the spare
  cells.
\<close>

record 'a slice =
  elems :: "'a list"
  spare :: "'a list"

definition go_len :: "'a slice \<Rightarrow> nat" where
  "go_len s = length (elems s)"

definition go_cap :: "'a slice \<Rightarrow> nat" where
  "go_cap s = length (elems s) + length (spare s)"

text \<open>The cells of the array of a slice, from its start to its capacity.\<close>

definition cells :: "'a slice \<Rightarrow> 'a list" where
  "cells s = elems s @ spare s"

text \<open>\<^verbatim>\<open>xs[i]\<close>, on the elements \<open>xs\<close> of a slice or of an array: bounded by the length.\<close>

definition go_index :: "'a list \<Rightarrow> nat \<Rightarrow> panic + 'a" where
  "go_index xs i = (if i < length xs then Inr (xs ! i) else Inl IndexOutOfRange)"

text \<open>
  \<^verbatim>\<open>xs[lo:hi]\<close>, on the cells \<open>xs\<close> of an array, or of a slice from its start to its
  capacity: bounded by the number of cells. It is applied to the elements of a slice
  only where the capacity is the length (a slice fresh from \<^verbatim>\<open>make\<close>, the nil slice)
  or where the upper bound is within the length, so that the spare cells cannot change
  the result.
\<close>

definition go_slice :: "'a list \<Rightarrow> nat \<Rightarrow> nat \<Rightarrow> panic + 'a list" where
  "go_slice xs lo hi =
     (if lo \<le> hi \<and> hi \<le> length xs then Inr (take (hi - lo) (drop lo xs))
      else Inl SliceBoundsOutOfRange)"

text \<open>\<^verbatim>\<open>xs[lo:]\<close>, on the elements \<open>xs\<close>: the upper bound is the length.\<close>

definition go_sliceFrom :: "'a list \<Rightarrow> nat \<Rightarrow> panic + 'a list" where
  "go_sliceFrom xs lo = go_slice xs lo (length xs)"

text \<open>
  The builtin \<^verbatim>\<open>copy(dst, src)\<close>: the first \<open>min (len dst) (len src)\<close> elements of
  \<open>dst\<close> are overwritten. The value is the new content of \<open>dst\<close>.
\<close>

definition go_copy :: "'a list \<Rightarrow> 'a list \<Rightarrow> 'a list" where
  "go_copy dst src =
     (let n = min (length dst) (length src) in take n src @ drop n dst)"

text \<open>
  \<^verbatim>\<open>copy(buf[lo:hi], src)\<close>: the window \<open>buf[lo:hi]\<close> shares the array of \<open>buf\<close>,
  so the copy is visible in \<open>buf\<close>. The window is evaluated first, then the source
  expression \<open>src\<close>, which may panic. The value is the new content of \<open>buf\<close>.
\<close>

definition copy_window :: "'a list \<Rightarrow> nat \<Rightarrow> nat \<Rightarrow> panic + 'a list \<Rightarrow> panic + 'a list" where
  "copy_window buf lo hi src =
     andThen (go_slice buf lo hi) (\<lambda>dst.
     andThen src (\<lambda>src'.
       Inr (take lo buf @ go_copy dst src' @ drop hi buf)))"

section \<open>The imported packages\<close>

text \<open>
  Modelled from the spec: \<^verbatim>\<open>big.Int.SetBytes\<close> of \<^verbatim>\<open>math/big\<close> is not under
  src/; the spec calls it \<open>bigEndianInt\<close>: the bytes read as a big-endian unsigned
  integer.
\<close>

definition SetBytes :: "byte list \<Rightarrow> int" where
  "SetBytes bs = foldl (\<lambda>acc b. acc * 256 + uint b) 0 bs"

text \<open>
  Modelled from the spec: \<^verbatim>\<open>common.RightPadBytes\<close> is not under src/. The spec: the
  input is right-padded with zero bytes up to the given length; a slice that is already
  long enough is returned as it is.
\<close>

definition RightPadBytes :: "byte list \<Rightarrow> nat \<Rightarrow> byte list" where
  "RightPadBytes bs l =
     (if l \<le> length bs then bs
      else go_copy (replicate l 0) bs)"

text \<open>
  Modelled from the spec: \<^verbatim>\<open>common.LeftPadBytes\<close> is not under src/. The spec: the
  bytes are left-padded with zeros to the given length.
\<close>

definition LeftPadBytes :: "byte list \<Rightarrow> nat \<Rightarrow> byte list" where
  "LeftPadBytes bs l =
     (if l \<le> length bs then bs
      else replicate (l - length bs) 0 @ bs)"

text \<open>
  Modelled from the spec: \<^verbatim>\<open>common.BytesToAddress\<close> and the 20-byte
  \<^verbatim>\<open>common.Address\<close> are not under src/. The spec: the returned bytes are unpacked
  into a 20-byte address value (a longer input keeps its last 20 bytes, a shorter one is
  left-padded with zeros).
\<close>

definition AddressLength :: nat where
  "AddressLength = 20"

definition BytesToAddress :: "byte list \<Rightarrow> byte list" where
  "BytesToAddress b =
     (let b' = (if AddressLength < length b then drop (length b - AddressLength) b else b)
      in replicate (AddressLength - length b') 0 @ b')"

text \<open>
  The external collaborators of the spec's section 6 whose bodies are curve arithmetic
  and hashing are parameters: the curve order \<^verbatim>\<open>secp256k1N\<close>, the EC-recovery
  primitive \<^verbatim>\<open>crypto.Ecrecover(hash, sig)\<close> (a public key or an error) and
  \<^verbatim>\<open>crypto.Keccak256\<close>.
\<close>

record crypto =
  secp256k1N :: int
  Ecrecover :: "byte list \<Rightarrow> byte list \<Rightarrow> error + byte list"
  Keccak256 :: "byte list \<Rightarrow> byte list"

text \<open>
  Modelled from the spec: \<^verbatim>\<open>crypto.ValidateSignatureValues\<close> is not under src/. The
  spec: \<open>recoveryId \<in> {0, 1}\<close>; \<open>r\<close> and \<open>s\<close> are each in the open range
  \<open>(0, curveOrder)\<close>; the rule \<open>s \<le> curveOrder/2\<close> applies only when
  \<open>enforceLowS\<close> is set.
\<close>

definition ValidateSignatureValues :: "int \<Rightarrow> byte \<Rightarrow> int \<Rightarrow> int \<Rightarrow> bool \<Rightarrow> bool" where
  "ValidateSignatureValues curveOrder v r s enforceLowS =
     ((v = 0 \<or> v = 1) \<and> 0 < r \<and> r < curveOrder \<and> 0 < s \<and> s < curveOrder
      \<and> (enforceLowS \<longrightarrow> s \<le> curveOrder div 2))"

text \<open>
  The contract of the two primitives (spec, section 6): a recovered public key has 65
  bytes, a Keccak-256 digest has 32.
\<close>

definition crypto_contract :: "crypto \<Rightarrow> bool" where
  "crypto_contract C =
     ((\<forall>h sig pubKey. Ecrecover C h sig = Inr pubKey \<longrightarrow> length pubKey = 65)
      \<and> (\<forall>bs. length (Keccak256 C bs) = 32))"

section \<open>src/ethereum/ecrecover.go\<close>

fun allZero :: "byte list \<Rightarrow> bool" where
  "allZero [] = True"
| "allZero (b # bs) = (if b \<noteq> 0 then False else allZero bs)"

definition ecRecoverInputLength :: nat where
  "ecRecoverInputLength = 128"

text \<open>
  The result is the pair \<open>(output, err)\<close> of the Go function, or the panic that ended
  the call. \<^verbatim>\<open>append(input[64:128], v)\<close> is the 64 bytes followed by \<open>v\<close>.
  (On an input longer than 128 bytes the append also writes \<open>v\<close> into byte 128 of the
  caller's array; nothing the function reads afterwards depends on that byte, and the
  model, which gives the returned values, does not record the write.)
  After \<^verbatim>\<open>RightPadBytes\<close> the input has at least 128 elements, and every bound of a
  slice expression on it is at most 128: the expressions are within its elements,
  whatever its capacity.
\<close>

definition PrecompiledEcRecover :: "crypto \<Rightarrow> byte list \<Rightarrow> panic + (byte list \<times> error option)" where
  "PrecompiledEcRecover C input0 =
     (let input = RightPadBytes input0 ecRecoverInputLength in
      andThen (go_slice input 64 96) (\<lambda>rb.
      andThen (go_slice input 96 128) (\<lambda>sb.
      andThen (go_index input 63) (\<lambda>b63.
      let r = SetBytes rb; s = SetBytes sb; v = b63 - 27 in
      andThen (go_slice input 32 63) (\<lambda>pad.
      if \<not> allZero pad \<or> \<not> ValidateSignatureValues (secp256k1N C) v r s False
      then Inr ([], None)
      else
        andThen (go_slice input 0 32) (\<lambda>hash.
        andThen (go_slice input 64 128) (\<lambda>rs.
        case Ecrecover C hash (rs @ [v]) of
          Inl err \<Rightarrow> Inr ([], None)
        | Inr pubKey \<Rightarrow>
            andThen (go_sliceFrom pubKey 1) (\<lambda>xy.
            andThen (go_sliceFrom (Keccak256 C xy) 12) (\<lambda>addr.
            Inr (LeftPadBytes addr 32, None))))))))))"

text \<open>
  \<^verbatim>\<open>Hash\<close> is a \<^verbatim>\<open>common.Hash\<close>, an array of 32 bytes; the theorems take its
  length as a hypothesis. \<^verbatim>\<open>common.Address{}\<close> is the address of 20 zero bytes.
  \<^verbatim>\<open>VRS\<close> is the caller's slice: \<^verbatim>\<open>VRS[0]\<close> is bounded by its length,
  \<^verbatim>\<open>VRS[1:65]\<close> by its capacity. \<^verbatim>\<open>input\<close> comes from \<^verbatim>\<open>make\<close>, with capacity
  128; \<^verbatim>\<open>output\<close> is the nil slice or, from \<^verbatim>\<open>LeftPadBytes\<close>, at least 32 long.
\<close>

definition EcRecover :: "crypto \<Rightarrow> byte list \<Rightarrow> byte slice \<Rightarrow> panic + (byte list \<times> error option)" where
  "EcRecover C Hash VRS =
     (let input = replicate 128 0 in
      andThen (go_index (elems VRS) 0) (\<lambda>v0.
      let input = input[63 := v0] in
      andThen (copy_window input 0 32 (go_slice Hash 0 32)) (\<lambda>input.
      andThen (copy_window input 64 128 (go_slice (cells VRS) 1 65)) (\<lambda>input.
      andThen (PrecompiledEcRecover C input) (\<lambda>(output, err).
      case err of
        Some e \<Rightarrow> Inr (replicate AddressLength 0, Some e)
      | None \<Rightarrow>
          andThen (go_slice output 12 32) (\<lambda>a.
          Inr (BytesToAddress a, None)))))))"

section \<open>The spec's vocabulary\<close>

text \<open>
  The 128-byte normalized view of an input (spec, section 4.1): the first 128 bytes,
  right-padded with zero bytes when the input is shorter.
\<close>

definition normalizedView :: "byte list \<Rightarrow> byte list" where
  "normalizedView x = take 128 x @ replicate (128 - length x) 0"

text \<open>The fields of the normalized view, as the spec's data model lays them out.\<close>

definition hashOf :: "byte list \<Rightarrow> byte list" where
  "hashOf x = take 32 (normalizedView x)"

definition paddingOf :: "byte list \<Rightarrow> byte list" where
  "paddingOf x = take 31 (drop 32 (normalizedView x))"

definition vOf :: "byte list \<Rightarrow> byte" where
  "vOf x = normalizedView x ! 63"

definition rsOf :: "byte list \<Rightarrow> byte list" where
  "rsOf x = take 64 (drop 64 (normalizedView x))"

definition rOf :: "byte list \<Rightarrow> int" where
  "rOf x = SetBytes (take 32 (drop 64 (normalizedView x)))"

definition sOf :: "byte list \<Rightarrow> int" where
  "sOf x = SetBytes (take 32 (drop 96 (normalizedView x)))"

text \<open>
  The address derivation of the spec: drop the first byte of the public key, hash the
  remaining 64 bytes, take the last 20 bytes of the digest, left-pad to 32 bytes.
\<close>

definition addressOutput :: "crypto \<Rightarrow> byte list \<Rightarrow> byte list" where
  "addressOutput C pubKey = replicate 12 0 @ drop 12 (Keccak256 C (drop 1 pubKey))"


text \<open>
  The 128-byte buffer of the adapter, as the spec lays it out: the hash in bytes
  \<open>[0:32]\<close>, zeros in \<open>[32:63]\<close>, \<open>vrs[0]\<close> at byte 63 and \<open>vrs[1:65]\<close> in
  \<open>[64:128]\<close>.
\<close>

definition packedInput :: "byte list \<Rightarrow> byte list \<Rightarrow> byte list" where
  "packedInput h vrs = h @ replicate 31 0 @ [vrs ! 0] @ take 64 (drop 1 vrs)"

section \<open>A deterministic fixture for the primitives\<close>

text \<open>
  The spec's design notes ask for the curve arithmetic and the hash to be injected, so
  that deterministic fixtures can stand in for them. This one has the order of
  secp256k1, a recovery that succeeds for recovery id 0 only, and a digest of 32 bytes;
  the concrete inputs below are evaluated against it.
\<close>

definition fixture :: crypto where
  "fixture =
     \<lparr> secp256k1N = 115792089237316195423570985008687907852837564279074904382605163141518161494337,
       Ecrecover = (\<lambda>h sig.
         if length h = 32 \<and> length sig = 65 \<and> last sig = 0 then Inr (4 # take 64 sig)
         else Inl (Error ''recovery failed'')),
       Keccak256 = (\<lambda>bs. take 32 (rev bs @ replicate 32 0)) \<rparr>"

definition sampleHash :: "byte list" where
  "sampleHash = replicate 32 17"

definition sampleR :: "byte list" where
  "sampleR = replicate 31 0 @ [1]"

text \<open>\<open>s = 2 ^ 255\<close>, above half the curve order and below the curve order.\<close>

definition highS :: "byte list" where
  "highS = 128 # replicate 31 0"

definition sampleInput :: "byte list" where
  "sampleInput = sampleHash @ replicate 31 0 @ [27] @ sampleR @ highS"

definition samplePubKey :: "byte list" where
  "samplePubKey = 4 # sampleR @ highS"

definition sampleVRS :: "byte list" where
  "sampleVRS = [27] @ sampleR @ highS"

text \<open>A slice of exactly these elements, with no spare capacity.\<close>

definition exact :: "byte list \<Rightarrow> byte slice" where
  "exact xs = \<lparr> elems = xs, spare = [] \<rparr>"

text \<open>
  A slice of length 1 and capacity 65: the first byte of \<open>sampleVRS\<close>, with the other
  64 bytes in the spare cells of its array.
\<close>

definition shortVRS :: "byte slice" where
  "shortVRS = \<lparr> elems = [27], spare = sampleR @ highS \<rparr>"

section \<open>Slices of the padded input\<close>

lemma length_normalizedView: "length (normalizedView x) = 128"
  by (simp add: normalizedView_def)

lemma length_RightPadBytes: "128 \<le> length (RightPadBytes x 128)"
  by (simp add: RightPadBytes_def go_copy_def)

lemma take_RightPadBytes: "take 128 (RightPadBytes x 128) = normalizedView x"
  by (simp add: RightPadBytes_def go_copy_def normalizedView_def min_def)

lemma slice_RightPadBytes:
  assumes "lo \<le> hi" and "hi \<le> 128"
  shows "go_slice (RightPadBytes x 128) lo hi = Inr (take (hi - lo) (drop lo (normalizedView x)))"
proof -
  have "take (hi - lo) (drop lo (take 128 (RightPadBytes x 128)))
      = take (hi - lo) (drop lo (RightPadBytes x 128))"
    using assms by (simp add: drop_take min_def)
  then show ?thesis
    using assms length_RightPadBytes [of x]
    by (simp add: go_slice_def take_RightPadBytes)
qed

lemma index_RightPadBytes:
  assumes "i < 128"
  shows "go_index (RightPadBytes x 128) i = Inr (normalizedView x ! i)"
proof -
  have "take 128 (RightPadBytes x 128) ! i = RightPadBytes x 128 ! i"
    using assms by simp
  then show ?thesis
    using assms length_RightPadBytes [of x]
    by (simp add: go_index_def take_RightPadBytes)
qed

section \<open>The precompile emulator on the normalized view\<close>

lemma PrecompiledEcRecover_view:
  "PrecompiledEcRecover C x =
     (if \<not> allZero (paddingOf x)
         \<or> \<not> ValidateSignatureValues (secp256k1N C) (vOf x - 27) (rOf x) (sOf x) False
      then Inr ([], None)
      else case Ecrecover C (hashOf x) (rsOf x @ [vOf x - 27]) of
             Inl err \<Rightarrow> Inr ([], None)
           | Inr pubKey \<Rightarrow>
               andThen (go_sliceFrom pubKey 1) (\<lambda>xy.
               andThen (go_sliceFrom (Keccak256 C xy) 12) (\<lambda>addr.
               Inr (LeftPadBytes addr 32, None))))"
  unfolding PrecompiledEcRecover_def ecRecoverInputLength_def Let_def
  by (simp add: slice_RightPadBytes index_RightPadBytes andThen_def
      paddingOf_def vOf_def rOf_def sOf_def hashOf_def rsOf_def)

lemma derive_address:
  assumes "length pubKey = 65" and "length (Keccak256 C (drop 1 pubKey)) = 32"
  shows "andThen (go_sliceFrom pubKey 1) (\<lambda>xy.
           andThen (go_sliceFrom (Keccak256 C xy) 12) (\<lambda>addr.
           Inr (LeftPadBytes addr 32, None :: error option)))
         = Inr (addressOutput C pubKey, None)"
  using assms
  by (simp add: andThen_def go_sliceFrom_def go_slice_def LeftPadBytes_def addressOutput_def)

lemma contract_pubKey: "crypto_contract C \<Longrightarrow> Ecrecover C h sig = Inr pubKey \<Longrightarrow> length pubKey = 65"
  by (auto simp: crypto_contract_def)

lemma contract_digest: "crypto_contract C \<Longrightarrow> length (Keccak256 C bs) = 32"
  by (simp add: crypto_contract_def)

lemma length_addressOutput: "crypto_contract C \<Longrightarrow> length (addressOutput C pubKey) = 32"
  by (simp add: addressOutput_def contract_digest)

lemma fixture_contract: "crypto_contract fixture"
  by (auto simp: crypto_contract_def fixture_def)

lemma foldl_nonneg: "0 \<le> acc \<Longrightarrow> 0 \<le> foldl (\<lambda>acc b. acc * 256 + uint (b :: byte)) acc bs"
  by (induction bs arbitrary: acc) simp_all

lemma SetBytes_nonneg: "0 \<le> SetBytes bs"
  by (simp add: SetBytes_def foldl_nonneg)

lemma allZero_iff: "allZero bs \<longleftrightarrow> (\<forall>b \<in> set bs. b = 0)"
  by (induction bs) auto

lemma padding_nth:
  assumes "32 \<le> i" and "i < 63"
  shows "paddingOf x ! (i - 32) = normalizedView x ! i"
  using assms by (simp add: paddingOf_def length_normalizedView)

lemma padding_nonzero:
  assumes "32 \<le> i" and "i < 63" and "normalizedView x ! i \<noteq> 0"
  shows "\<not> allZero (paddingOf x)"
proof -
  have "i - 32 < length (paddingOf x)"
    using assms by (simp add: paddingOf_def length_normalizedView)
  then have "paddingOf x ! (i - 32) \<in> set (paddingOf x)"
    by (rule nth_mem)
  with assms show ?thesis
    by (auto simp: allZero_iff padding_nth)
qed

text \<open>
  Claim C1. When the normalized view of the input passes the validation gate and the
  EC-recovery primitive, called with the hash \<open>input[0:32]\<close> and the signature
  \<open>input[64:128]\<close> followed by the recovery-id byte, returns a public key, the output
  is 12 zero bytes followed by the last 20 bytes of the Keccak-256 digest of the key
  without its first byte: 32 bytes in all, with a nil error. The primitives honour
  their contract (a key of 65 bytes, a digest of 32).
\<close>

theorem C1_recover_address:
  assumes "crypto_contract C"
    and "allZero (paddingOf x)"
    and "ValidateSignatureValues (secp256k1N C) (vOf x - 27) (rOf x) (sOf x) False"
    and "Ecrecover C (hashOf x) (rsOf x @ [vOf x - 27]) = Inr pubKey"
  shows "PrecompiledEcRecover C x
           = Inr (replicate 12 0 @ drop 12 (Keccak256 C (drop 1 pubKey)), None)
         \<and> length (replicate 12 (0::byte) @ drop 12 (Keccak256 C (drop 1 pubKey))) = 32"
proof -
  have "length pubKey = 65"
    using assms(1,4) by (rule contract_pubKey)
  moreover have "length (Keccak256 C (drop 1 pubKey)) = 32"
    using assms(1) by (rule contract_digest)
  ultimately have "andThen (go_sliceFrom pubKey 1) (\<lambda>xy.
           andThen (go_sliceFrom (Keccak256 C xy) 12) (\<lambda>addr.
           Inr (LeftPadBytes addr 32, None :: error option)))
         = Inr (addressOutput C pubKey, None)"
    by (rule derive_address)
  moreover have "PrecompiledEcRecover C x
      = andThen (go_sliceFrom pubKey 1) (\<lambda>xy.
           andThen (go_sliceFrom (Keccak256 C xy) 12) (\<lambda>addr.
           Inr (LeftPadBytes addr 32, None)))"
    using assms(2,3,4) by (simp add: PrecompiledEcRecover_view)
  ultimately have "PrecompiledEcRecover C x = Inr (addressOutput C pubKey, None)"
    by simp
  then show ?thesis
    using length_addressOutput [OF assms(1), of pubKey] by (simp add: addressOutput_def)
qed

theorem C1_recover_address_witness:
  "crypto_contract fixture \<and> allZero (paddingOf sampleInput)
   \<and> ValidateSignatureValues (secp256k1N fixture) (vOf sampleInput - 27)
        (rOf sampleInput) (sOf sampleInput) False
   \<and> Ecrecover fixture (hashOf sampleInput) (rsOf sampleInput @ [vOf sampleInput - 27])
        = Inr samplePubKey
   \<and> PrecompiledEcRecover fixture sampleInput
        = Inr (replicate 12 0 @ drop 12 (Keccak256 fixture (drop 1 samplePubKey)), None)"
proof -
  have c: "crypto_contract fixture"
    by (rule fixture_contract)
  have p: "allZero (paddingOf sampleInput)"
    by code_simp
  have v: "ValidateSignatureValues (secp256k1N fixture) (vOf sampleInput - 27)
        (rOf sampleInput) (sOf sampleInput) False"
    by code_simp
  have e: "Ecrecover fixture (hashOf sampleInput) (rsOf sampleInput @ [vOf sampleInput - 27])
        = Inr samplePubKey"
    by code_simp
  from C1_recover_address [OF c p v e] c p v e show ?thesis
    by simp
qed

text \<open>
  Claim C2. A non-zero byte at any position 32 to 62 of the normalized view makes
  \<open>PrecompiledEcRecover\<close> return the nil output and a nil error, whatever the hash,
  \<open>v\<close>, \<open>r\<close>, \<open>s\<close> and the primitives are.
\<close>

theorem C2_padding_rejected:
  assumes "32 \<le> i" and "i < 63" and "normalizedView x ! i \<noteq> 0"
  shows "PrecompiledEcRecover C x = Inr ([], None)"
  using padding_nonzero [OF assms] by (simp add: PrecompiledEcRecover_view)

theorem C2_padding_rejected_witness:
  "normalizedView (sampleInput[40 := 1]) ! 40 \<noteq> 0
   \<and> PrecompiledEcRecover fixture (sampleInput[40 := 1]) = Inr ([], None)"
proof -
  have h: "normalizedView (sampleInput[40 := 1]) ! 40 \<noteq> 0"
    by code_simp
  from C2_padding_rejected [of 40, OF _ _ h] h show ?thesis
    by simp
qed

text \<open>
  Claim C3. Each of \<open>r = 0\<close>, \<open>s = 0\<close>, \<open>r \<ge> curveOrder\<close> and
  \<open>s \<ge> curveOrder\<close>, with \<open>r\<close> and \<open>s\<close> the big-endian integers of
  \<open>input[64:96]\<close> and \<open>input[96:128]\<close>, is enough for the nil output and a nil error.
\<close>

theorem C3_range_rejected:
  assumes "rOf x = 0 \<or> sOf x = 0 \<or> secp256k1N C \<le> rOf x \<or> secp256k1N C \<le> sOf x"
  shows "PrecompiledEcRecover C x = Inr ([], None)"
  using assms by (auto simp: PrecompiledEcRecover_view ValidateSignatureValues_def)

theorem C3_range_rejected_witness:
  "sOf (take 96 sampleInput) = 0
   \<and> PrecompiledEcRecover fixture (take 96 sampleInput) = Inr ([], None)"
proof -
  have h: "sOf (take 96 sampleInput) = 0"
    by code_simp
  from C3_range_rejected [of "take 96 sampleInput" fixture] h show ?thesis
    by simp
qed

text \<open>
  Claim C4. When byte 63 of the normalized view is neither 27 nor 28, the output is nil
  and the error is nil. The recovery id is the byte difference \<open>input[63] - 27\<close>, which
  wraps modulo 256 (it is \<open>input[63] + 229\<close> modulo 256, so 229 for the byte 0) and then
  lies outside \<open>{0, 1}\<close>.
\<close>

theorem C4_recovery_id_rejected:
  assumes "vOf x \<noteq> 27" and "vOf x \<noteq> 28"
  shows "PrecompiledEcRecover C x = Inr ([], None)
         \<and> vOf x - 27 \<noteq> 0 \<and> vOf x - 27 \<noteq> 1
         \<and> unat (vOf x - 27) = (unat (vOf x) + 229) mod 256"
proof -
  have a: "vOf x - 27 \<noteq> 0" using assms(1) by simp
  have b: "vOf x - 27 \<noteq> 1"
  proof
    assume "vOf x - 27 = 1"
    then have "vOf x = 1 + 27" by (simp add: algebra_simps)
    with assms(2) show False by simp
  qed
  have c: "unat (vOf x - 27) = (unat (vOf x) + 229) mod 256"
  proof -
    have "unat (vOf x + 229) = (unat (vOf x) + unat (229 :: byte)) mod 2 ^ LENGTH(8)"
      by (rule unat_word_ariths(1))
    moreover have "vOf x + 229 = vOf x - 27" by simp
    ultimately show ?thesis by simp
  qed
  from a b c show ?thesis
    by (simp add: PrecompiledEcRecover_view ValidateSignatureValues_def)
qed

theorem C4_recovery_id_rejected_witness:
  "allZero (paddingOf (sampleInput[63 := 29]))
   \<and> 0 < rOf (sampleInput[63 := 29]) \<and> rOf (sampleInput[63 := 29]) < secp256k1N fixture
   \<and> 0 < sOf (sampleInput[63 := 29]) \<and> sOf (sampleInput[63 := 29]) < secp256k1N fixture
   \<and> vOf (sampleInput[63 := 29]) \<noteq> 27 \<and> vOf (sampleInput[63 := 29]) \<noteq> 28
   \<and> vOf (sampleInput[63 := 29]) - 27 = 2
   \<and> PrecompiledEcRecover fixture (sampleInput[63 := 29]) = Inr ([], None)
   \<and> PrecompiledEcRecover fixture (sampleInput[63 := 27]) \<noteq> Inr ([], None)
   \<and> vOf (sampleInput[63 := 0]) \<noteq> 27 \<and> vOf (sampleInput[63 := 0]) \<noteq> 28
   \<and> vOf (sampleInput[63 := 0]) - 27 = 229
   \<and> PrecompiledEcRecover fixture (sampleInput[63 := 0]) = Inr ([], None)"
proof -
  have p: "allZero (paddingOf (sampleInput[63 := 29]))"
    by code_simp
  have r: "0 < rOf (sampleInput[63 := 29])" "rOf (sampleInput[63 := 29]) < secp256k1N fixture"
    by code_simp+
  have s: "0 < sOf (sampleInput[63 := 29])" "sOf (sampleInput[63 := 29]) < secp256k1N fixture"
    by code_simp+
  have v: "vOf (sampleInput[63 := 29]) = 29"
    by code_simp
  have a: "vOf (sampleInput[63 := 29]) \<noteq> 27" and b: "vOf (sampleInput[63 := 29]) \<noteq> 28"
    by (simp_all add: v)
  have ok: "PrecompiledEcRecover fixture (sampleInput[63 := 27]) \<noteq> Inr ([], None)"
    by code_simp
  have z: "vOf (sampleInput[63 := 0]) = 0"
    by code_simp
  have c: "vOf (sampleInput[63 := 0]) \<noteq> 27" and d: "vOf (sampleInput[63 := 0]) \<noteq> 28"
    by (simp_all add: z)
  have "PrecompiledEcRecover fixture (sampleInput[63 := 29]) = Inr ([], None)"
    using C4_recovery_id_rejected [OF a b, of fixture] by simp
  moreover have "PrecompiledEcRecover fixture (sampleInput[63 := 0]) = Inr ([], None)"
    using C4_recovery_id_rejected [OF c d, of fixture] by simp
  ultimately show ?thesis
    using p r s a b c d ok by (simp add: v z)
qed

text \<open>
  Claim C5. The validator is called with \<open>enforceLowS = False\<close>: a signature with
  \<open>curveOrder/2 < s < curveOrder\<close>, \<open>0 < r < curveOrder\<close>, \<open>v\<close> 27 or 28 and a
  zero padding region passes the gate (which it would not with the low-s rule), and the
  result is that of the recovery step: nil when the primitive fails, the derived address
  when it returns a key.
\<close>

theorem C5_low_s_not_enforced:
  assumes "allZero (paddingOf x)"
    and "vOf x = 27 \<or> vOf x = 28"
    and "0 < rOf x" and "rOf x < secp256k1N C"
    and "secp256k1N C div 2 < sOf x" and "sOf x < secp256k1N C"
  shows "ValidateSignatureValues (secp256k1N C) (vOf x - 27) (rOf x) (sOf x) False
         \<and> \<not> ValidateSignatureValues (secp256k1N C) (vOf x - 27) (rOf x) (sOf x) True
         \<and> PrecompiledEcRecover C x
             = (case Ecrecover C (hashOf x) (rsOf x @ [vOf x - 27]) of
                  Inl err \<Rightarrow> Inr ([], None)
                | Inr pubKey \<Rightarrow>
                    andThen (go_sliceFrom pubKey 1) (\<lambda>xy.
                    andThen (go_sliceFrom (Keccak256 C xy) 12) (\<lambda>addr.
                    Inr (LeftPadBytes addr 32, None))))"
proof -
  have "0 \<le> sOf x"
    by (simp add: sOf_def SetBytes_nonneg)
  with assms(5,6) have "0 < sOf x"
    by linarith
  moreover have "vOf x - 27 = 0 \<or> vOf x - 27 = 1"
    using assms(2) by auto
  ultimately show ?thesis
    using assms(1,3,4,5,6)
    by (simp add: PrecompiledEcRecover_view ValidateSignatureValues_def)
qed

theorem C5_low_s_not_enforced_witness:
  "allZero (paddingOf sampleInput) \<and> vOf sampleInput = 27
   \<and> 0 < rOf sampleInput \<and> rOf sampleInput < secp256k1N fixture
   \<and> secp256k1N fixture div 2 < sOf sampleInput \<and> sOf sampleInput < secp256k1N fixture
   \<and> \<not> ValidateSignatureValues (secp256k1N fixture) (vOf sampleInput - 27)
          (rOf sampleInput) (sOf sampleInput) True
   \<and> PrecompiledEcRecover fixture sampleInput
       = (case Ecrecover fixture (hashOf sampleInput) (rsOf sampleInput @ [vOf sampleInput - 27]) of
            Inl err \<Rightarrow> Inr ([], None)
          | Inr pubKey \<Rightarrow>
              andThen (go_sliceFrom pubKey 1) (\<lambda>xy.
              andThen (go_sliceFrom (Keccak256 fixture xy) 12) (\<lambda>addr.
              Inr (LeftPadBytes addr 32, None))))"
proof -
  have p: "allZero (paddingOf sampleInput)"
    by code_simp
  have v: "vOf sampleInput = 27"
    by code_simp
  have r: "0 < rOf sampleInput" "rOf sampleInput < secp256k1N fixture"
    by code_simp+
  have s: "secp256k1N fixture div 2 < sOf sampleInput" "sOf sampleInput < secp256k1N fixture"
    by code_simp+
  from C5_low_s_not_enforced [OF p _ r s] p v r s show ?thesis
    by simp
qed

section \<open>Normalization of the input\<close>

lemma view_determines:
  "normalizedView x = normalizedView y \<Longrightarrow> PrecompiledEcRecover C x = PrecompiledEcRecover C y"
  by (simp add: PrecompiledEcRecover_view paddingOf_def vOf_def rOf_def sOf_def hashOf_def rsOf_def)

lemma view_idem: "normalizedView (normalizedView x) = normalizedView x"
  by (simp add: normalizedView_def)

lemma view_padded:
  "normalizedView (x @ replicate (128 - length x) 0) = normalizedView x"
  by (simp add: normalizedView_def)

lemma view_take: "normalizedView (take 128 x) = normalizedView x"
  by (simp add: normalizedView_def min_def)

lemma foldl_zeros: "foldl (\<lambda>acc b. acc * 256 + uint (b :: byte)) 0 (replicate n 0) = 0"
  by (induction n) simp_all

lemma SetBytes_zeros: "SetBytes (replicate n 0) = 0"
  by (simp add: SetBytes_def foldl_zeros)

lemma r_of_short:
  assumes "length x \<le> 64"
  shows "rOf x = 0"
proof -
  have "take 32 (drop 64 (normalizedView x)) = replicate 32 0"
    using assms by (simp add: normalizedView_def min_def)
  then show ?thesis
    by (simp add: rOf_def SetBytes_zeros)
qed

text \<open>
  Claim C6. \<open>PrecompiledEcRecover\<close> on any byte sequence is \<open>PrecompiledEcRecover\<close> on
  its 128-byte normalized view: a shorter input gives the result of the same input
  right-padded with zeros to 128 bytes, a longer one the result of its first 128 bytes.
  An input of at most 64 bytes (a hash alone, in particular) has \<open>r = 0\<close> and is
  rejected with the nil output, with no panic.
\<close>

theorem C6_normalized_view:
  "PrecompiledEcRecover C x = PrecompiledEcRecover C (normalizedView x)
   \<and> (length x < 128 \<longrightarrow>
        PrecompiledEcRecover C x = PrecompiledEcRecover C (x @ replicate (128 - length x) 0))
   \<and> (128 \<le> length x \<longrightarrow> PrecompiledEcRecover C x = PrecompiledEcRecover C (take 128 x))
   \<and> (length x \<le> 64 \<longrightarrow> PrecompiledEcRecover C x = Inr ([], None))"
proof -
  have a: "PrecompiledEcRecover C x = PrecompiledEcRecover C (normalizedView x)"
    by (rule view_determines) (simp add: view_idem)
  have b: "PrecompiledEcRecover C x = PrecompiledEcRecover C (x @ replicate (128 - length x) 0)"
    by (rule view_determines) (simp add: view_padded)
  have c: "PrecompiledEcRecover C x = PrecompiledEcRecover C (take 128 x)"
    by (rule view_determines) (simp add: view_take)
  have d: "PrecompiledEcRecover C x = Inr ([], None)" if "length x \<le> 64"
    using r_of_short [OF that]
    by (simp add: PrecompiledEcRecover_view ValidateSignatureValues_def)
  from a b c d show ?thesis
    by simp
qed

theorem C6_normalized_view_witness:
  "length (sampleHash @ sampleHash) = 64
   \<and> PrecompiledEcRecover fixture (sampleHash @ sampleHash) = Inr ([], None)
   \<and> 128 \<le> length (sampleInput @ [1, 2, 3])
   \<and> PrecompiledEcRecover fixture (sampleInput @ [1, 2, 3])
        = PrecompiledEcRecover fixture (take 128 (sampleInput @ [1, 2, 3]))"
proof -
  have l1: "length (sampleHash @ sampleHash) = 64"
    by (simp add: sampleHash_def)
  have l2: "128 \<le> length (sampleInput @ [1, 2, 3])"
    by (simp add: sampleInput_def sampleHash_def sampleR_def highS_def)
  have "PrecompiledEcRecover fixture (sampleHash @ sampleHash) = Inr ([], None)"
    using C6_normalized_view [of fixture "sampleHash @ sampleHash"] l1 by linarith
  moreover have "PrecompiledEcRecover fixture (sampleInput @ [1, 2, 3])
        = PrecompiledEcRecover fixture (take 128 (sampleInput @ [1, 2, 3]))"
    using C6_normalized_view [of fixture "sampleInput @ [1, 2, 3]"] l2 by blast
  ultimately show ?thesis
    using l1 l2 by blast
qed

section \<open>The adapter\<close>

lemma andThen_Inr: "andThen (Inr a) f = f a"
  by (simp add: andThen_def)

lemma andThen_Inl: "andThen (Inl p) f = Inl p"
  by (simp add: andThen_def)

lemma buffer_63: "(replicate 128 (0::byte))[63 := v] = replicate 63 0 @ [v] @ replicate 64 0"
proof -
  have "replicate 128 (0::byte) = replicate 63 0 @ 0 # replicate 64 0"
    by (simp add: replicate_add [symmetric] flip: replicate_Suc)
  then show ?thesis
    by (simp add: list_update_append)
qed

lemma window_hash:
  assumes "length Hash = 32"
  shows "copy_window ((replicate 128 (0::byte))[63 := v]) 0 32 (go_slice Hash 0 32)
           = Inr (Hash @ replicate 31 0 @ [v] @ replicate 64 0)"
  using assms
  by (simp add: buffer_63 copy_window_def andThen_def go_slice_def go_copy_def
      flip: replicate_add)

lemma EcRecover_cells:
  assumes "length Hash = 32" and "elems VRS \<noteq> []" and "65 \<le> go_cap VRS"
  shows "EcRecover C Hash VRS =
           andThen (PrecompiledEcRecover C (packedInput Hash (cells VRS))) (\<lambda>(output, err).
             case err of
               Some e \<Rightarrow> Inr (replicate AddressLength 0, Some e)
             | None \<Rightarrow>
                 andThen (go_slice output 12 32) (\<lambda>a.
                 Inr (BytesToAddress a, None)))"
proof -
  have v: "go_index (elems VRS) 0 = Inr (cells VRS ! 0)"
    using assms(2) by (cases "elems VRS") (simp_all add: go_index_def cells_def)
  have l: "65 \<le> length (cells VRS)"
    using assms(3) by (simp add: go_cap_def cells_def)
  have c2: "copy_window (Hash @ replicate 31 0 @ [cells VRS ! 0] @ replicate 64 0) 64 128
              (go_slice (cells VRS) 1 65) = Inr (packedInput Hash (cells VRS))"
    using assms(1) l
    by (simp add: copy_window_def andThen_def go_slice_def go_copy_def packedInput_def min_def)
  show ?thesis
    by (simp only: EcRecover_def Let_def v window_hash [OF assms(1)] c2 andThen_Inr)
qed

lemma packed_cells:
  assumes "length (elems VRS) = 65"
  shows "packedInput Hash (cells VRS) = packedInput Hash (elems VRS)"
proof -
  have "elems VRS \<noteq> []"
    using assms by auto
  then have "cells VRS ! 0 = elems VRS ! 0"
    by (cases "elems VRS") (simp_all add: cells_def)
  moreover have "take 64 (drop 1 (cells VRS)) = take 64 (drop 1 (elems VRS))"
    using assms by (simp add: cells_def)
  ultimately show ?thesis
    by (simp only: packedInput_def)
qed

lemma EcRecover_packed:
  assumes "length Hash = 32" and "length (elems VRS) = 65"
  shows "EcRecover C Hash VRS =
           andThen (PrecompiledEcRecover C (packedInput Hash (elems VRS))) (\<lambda>(output, err).
             case err of
               Some e \<Rightarrow> Inr (replicate AddressLength 0, Some e)
             | None \<Rightarrow>
                 andThen (go_slice output 12 32) (\<lambda>a.
                 Inr (BytesToAddress a, None)))"
proof -
  have n: "elems VRS \<noteq> []"
    using assms(2) by auto
  have c: "65 \<le> go_cap VRS"
    using assms(2) by (simp add: go_cap_def)
  show ?thesis
    by (simp only: EcRecover_cells [OF assms(1) n c] packed_cells [OF assms(2)])
qed

lemma packed_length: "length Hash = 32 \<Longrightarrow> 65 \<le> length VRS \<Longrightarrow> length (packedInput Hash VRS) = 128"
  by (simp add: packedInput_def)

lemma packed_view:
  "length Hash = 32 \<Longrightarrow> 65 \<le> length VRS \<Longrightarrow> normalizedView (packedInput Hash VRS) = packedInput Hash VRS"
  by (simp add: normalizedView_def packed_length)

lemma allZero_replicate: "allZero (replicate n 0)"
  by (induction n) simp_all

lemma packed_padding:
  assumes "length Hash = 32" and "65 \<le> length VRS"
  shows "paddingOf (packedInput Hash VRS) = replicate 31 0"
  using assms by (simp add: paddingOf_def packed_view) (simp add: packedInput_def)

text \<open>
  Claim C7. For a 32-byte hash and a 65-byte signature (of any capacity), \<open>EcRecover\<close>
  runs \<open>PrecompiledEcRecover\<close> on the 128-byte buffer that holds the hash in
  \<open>[0:32]\<close>, zeros in \<open>[32:63]\<close>, \<open>VRS[0]\<close> at byte 63 and \<open>VRS[1:65]\<close> in
  \<open>[64:128]\<close>, and its result is what lines 87 to 92 make of the emulator's result. The
  padding region of that buffer passes the emulator's all-zero check.
\<close>

theorem C7_packs_and_delegates:
  assumes "length Hash = 32" and "length (elems VRS) = 65"
  shows "EcRecover C Hash VRS =
           andThen (PrecompiledEcRecover C (packedInput Hash (elems VRS))) (\<lambda>(output, err).
             case err of
               Some e \<Rightarrow> Inr (replicate AddressLength 0, Some e)
             | None \<Rightarrow>
                 andThen (go_slice output 12 32) (\<lambda>a.
                 Inr (BytesToAddress a, None)))
         \<and> packedInput Hash (elems VRS)
             = Hash @ replicate 31 0 @ [elems VRS ! 0] @ drop 1 (elems VRS)
         \<and> length (packedInput Hash (elems VRS)) = 128
         \<and> allZero (paddingOf (packedInput Hash (elems VRS)))"
proof -
  have l: "65 \<le> length (elems VRS)"
    using assms(2) by simp
  have "take 64 (drop 1 (elems VRS)) = drop 1 (elems VRS)"
    using assms(2) by simp
  then have "packedInput Hash (elems VRS)
      = Hash @ replicate 31 0 @ [elems VRS ! 0] @ drop 1 (elems VRS)"
    by (simp only: packedInput_def)
  moreover have "allZero (paddingOf (packedInput Hash (elems VRS)))"
    by (simp only: packed_padding [OF assms(1) l] allZero_replicate)
  ultimately show ?thesis
    using EcRecover_packed [OF assms, of C] packed_length [OF assms(1) l]
    by blast
qed

theorem C7_packs_and_delegates_witness:
  "length sampleHash = 32 \<and> length (elems (exact sampleVRS)) = 65
   \<and> packedInput sampleHash (elems (exact sampleVRS)) = sampleInput
   \<and> EcRecover fixture sampleHash (exact sampleVRS)
       = andThen (PrecompiledEcRecover fixture sampleInput) (\<lambda>(output, err).
             case err of
               Some e \<Rightarrow> Inr (replicate AddressLength 0, Some e)
             | None \<Rightarrow>
                 andThen (go_slice output 12 32) (\<lambda>a.
                 Inr (BytesToAddress a, None)))
   \<and> EcRecover fixture sampleHash (exact sampleVRS) = Inr (replicate 19 0 @ [128], None)"
proof -
  have h: "length sampleHash = 32"
    by (simp add: sampleHash_def)
  have v: "length (elems (exact sampleVRS)) = 65"
    by (simp add: exact_def sampleVRS_def sampleR_def highS_def)
  have p: "packedInput sampleHash (elems (exact sampleVRS)) = sampleInput"
    by code_simp
  have e: "EcRecover fixture sampleHash (exact sampleVRS) = Inr (replicate 19 0 @ [128], None)"
    by code_simp
  from C7_packs_and_delegates [OF h v, of fixture] h v p e show ?thesis
    by simp
qed

text \<open>
  Claim C8. For a 32-byte hash and a 65-byte signature on whose packed buffer
  \<open>PrecompiledEcRecover\<close> returns the nil output (with its nil error), the slice
  \<open>output[12:32]\<close> of \<open>EcRecover\<close> is out of bounds: the call ends in a slice-bounds
  panic, not in an error value.
\<close>

theorem C8_empty_output_panics:
  assumes "length Hash = 32" and "length (elems VRS) = 65"
    and "PrecompiledEcRecover C (packedInput Hash (elems VRS)) = Inr ([], None)"
  shows "EcRecover C Hash VRS = Inl SliceBoundsOutOfRange"
proof -
  have "EcRecover C Hash VRS =
           andThen (PrecompiledEcRecover C (packedInput Hash (elems VRS))) (\<lambda>(output, err).
             case err of
               Some e \<Rightarrow> Inr (replicate AddressLength 0, Some e)
             | None \<Rightarrow>
                 andThen (go_slice output 12 32) (\<lambda>a.
                 Inr (BytesToAddress a, None)))"
    using assms(1,2) by (rule EcRecover_packed)
  then show ?thesis
    by (simp add: assms(3) andThen_def go_slice_def)
qed

theorem C8_empty_output_panics_witness:
  "length sampleHash = 32 \<and> length (elems (exact (29 # sampleR @ highS))) = 65
   \<and> PrecompiledEcRecover fixture
        (packedInput sampleHash (elems (exact (29 # sampleR @ highS)))) = Inr ([], None)
   \<and> EcRecover fixture sampleHash (exact (29 # sampleR @ highS)) = Inl SliceBoundsOutOfRange"
proof -
  have h: "length sampleHash = 32"
    by (simp add: sampleHash_def)
  have v: "length (elems (exact (29 # sampleR @ highS))) = 65"
    by (simp add: exact_def sampleR_def highS_def)
  have p: "PrecompiledEcRecover fixture
      (packedInput sampleHash (elems (exact (29 # sampleR @ highS)))) = Inr ([], None)"
    by code_simp
  from C8_empty_output_panics [OF h v p] h v p show ?thesis
    by simp
qed

lemma PrecompiledEcRecover_no_error: "PrecompiledEcRecover C x \<noteq> Inr (out, Some e)"
  by (auto simp: PrecompiledEcRecover_view andThen_def split: sum.splits)

lemma EcRecover_no_error: "EcRecover C Hash VRS \<noteq> Inr (a, Some e)"
proof
  assume r: "EcRecover C Hash VRS = Inr (a, Some e)"
  have "\<exists>input out. PrecompiledEcRecover C input = Inr (out, Some e)"
    using r unfolding EcRecover_def Let_def andThen_def
    by (auto split: sum.splits option.splits prod.splits)
  then show False
    by (simp add: PrecompiledEcRecover_no_error)
qed

lemma EcRecover_empty:
  assumes "elems VRS = []"
  shows "EcRecover C Hash VRS = Inl IndexOutOfRange"
  using assms by (simp add: EcRecover_def go_index_def andThen_def)

lemma EcRecover_small:
  assumes "length Hash = 32" and "elems VRS \<noteq> []" and "go_cap VRS < 65"
  shows "EcRecover C Hash VRS = Inl SliceBoundsOutOfRange"
proof -
  have v: "go_index (elems VRS) 0 = Inr (elems VRS ! 0)"
    using assms(2) by (simp add: go_index_def)
  have c2: "copy_window (Hash @ replicate 31 0 @ [elems VRS ! 0] @ replicate 64 0) 64 128
              (go_slice (cells VRS) 1 65) = Inl SliceBoundsOutOfRange"
    using assms(1,3)
    by (simp add: copy_window_def andThen_def go_slice_def go_cap_def cells_def)
  show ?thesis
    by (simp only: EcRecover_def Let_def v window_hash [OF assms(1)] c2 andThen_Inr andThen_Inl)
qed

lemma EcRecover_first65:
  assumes "length Hash = 32" and "elems VRS \<noteq> []" and "65 \<le> go_cap VRS"
  shows "EcRecover C Hash VRS = EcRecover C Hash (exact (take 65 (cells VRS)))"
proof -
  have l: "length (elems (exact (take 65 (cells VRS)))) = 65"
    using assms(3) by (simp add: exact_def go_cap_def cells_def)
  have "drop 1 (take 65 (cells VRS)) = take 64 (drop 1 (cells VRS))"
    by (simp add: drop_take)
  then have "packedInput Hash (elems (exact (take 65 (cells VRS))))
      = packedInput Hash (cells VRS)"
    by (simp add: packedInput_def exact_def)
  then show ?thesis
    by (simp only: EcRecover_cells [OF assms] EcRecover_packed [OF assms(1) l])
qed

text \<open>
  Claim C9 says that a signature buffer whose length is not 65 makes \<open>EcRecover\<close>
  return a descriptive error without a panic. The code has no length check: with the
  empty buffer, \<open>VRS[0]\<close> panics.
\<close>

theorem C9_counterexample:
  "length sampleHash = 32 \<and> go_len (exact []) \<noteq> 65
   \<and> EcRecover fixture sampleHash (exact []) = Inl IndexOutOfRange"
  by (simp add: sampleHash_def exact_def go_len_def EcRecover_empty)

text \<open>
  Claim C9, amended. \<open>EcRecover\<close> does not check the length of \<open>VRS\<close> and never
  returns a non-nil error. For a 32-byte hash and a buffer whose length is not 65: the
  empty buffer panics at \<open>VRS[0]\<close> (index out of range); a non-empty buffer whose
  capacity is below 65 panics at \<open>VRS[1:65]\<close> (slice bounds out of range); a non-empty
  buffer whose capacity is at least 65 is accepted, and the call is the call on the
  first 65 cells of its array (cells beyond a length below 65 are read, elements past
  the 65th are not).
\<close>

theorem C9_length_not_guarded:
  assumes "length Hash = 32" and "go_len VRS \<noteq> 65"
  shows "(go_len VRS = 0 \<longrightarrow> EcRecover C Hash VRS = Inl IndexOutOfRange)
         \<and> (0 < go_len VRS \<and> go_cap VRS < 65 \<longrightarrow>
              EcRecover C Hash VRS = Inl SliceBoundsOutOfRange)
         \<and> (0 < go_len VRS \<and> 65 \<le> go_cap VRS \<longrightarrow>
              EcRecover C Hash VRS = EcRecover C Hash (exact (take 65 (cells VRS))))
         \<and> (\<forall>a e. EcRecover C Hash VRS \<noteq> Inr (a, Some e))"
proof -
  have "EcRecover C Hash VRS = Inl IndexOutOfRange" if "go_len VRS = 0"
    by (rule EcRecover_empty) (use that in \<open>simp add: go_len_def\<close>)
  moreover have "EcRecover C Hash VRS = Inl SliceBoundsOutOfRange"
    if "0 < go_len VRS" and "go_cap VRS < 65"
    using assms(1) _ that(2) by (rule EcRecover_small) (use that(1) in \<open>auto simp: go_len_def\<close>)
  moreover have "EcRecover C Hash VRS = EcRecover C Hash (exact (take 65 (cells VRS)))"
    if "0 < go_len VRS" and "65 \<le> go_cap VRS"
    using assms(1) _ that(2) by (rule EcRecover_first65) (use that(1) in \<open>auto simp: go_len_def\<close>)
  ultimately show ?thesis
    using EcRecover_no_error [of C Hash VRS] by blast
qed

theorem C9_length_not_guarded_witness:
  "length sampleHash = 32
   \<and> go_len (exact [27]) = 1 \<and> go_cap (exact [27]) = 1
   \<and> EcRecover fixture sampleHash (exact [27]) = Inl SliceBoundsOutOfRange
   \<and> go_len shortVRS = 1 \<and> go_cap shortVRS = 65
   \<and> EcRecover fixture sampleHash shortVRS
        = EcRecover fixture sampleHash (exact (take 65 (cells shortVRS)))
   \<and> EcRecover fixture sampleHash shortVRS = Inr (replicate 19 0 @ [128], None)
   \<and> go_len (exact (sampleVRS @ [9])) = 66
   \<and> EcRecover fixture sampleHash (exact (sampleVRS @ [9]))
        = EcRecover fixture sampleHash (exact (take 65 (cells (exact (sampleVRS @ [9])))))"
proof -
  have h: "length sampleHash = 32"
    by (simp add: sampleHash_def)
  have a: "go_len (exact [27]) = 1" "go_cap (exact [27]) = 1"
    by (simp_all add: go_len_def go_cap_def exact_def)
  have b: "go_len shortVRS = 1" "go_cap shortVRS = 65"
    by (simp_all add: go_len_def go_cap_def shortVRS_def sampleR_def highS_def)
  have c: "go_len (exact (sampleVRS @ [9])) = 66" "go_cap (exact (sampleVRS @ [9])) = 66"
    by (simp_all add: go_len_def go_cap_def exact_def sampleVRS_def sampleR_def highS_def)
  have r: "EcRecover fixture sampleHash shortVRS = Inr (replicate 19 0 @ [128], None)"
    by code_simp
  have "EcRecover fixture sampleHash (exact [27]) = Inl SliceBoundsOutOfRange"
    using C9_length_not_guarded [OF h, of "exact [27]" fixture] a by simp
  moreover have "EcRecover fixture sampleHash shortVRS
        = EcRecover fixture sampleHash (exact (take 65 (cells shortVRS)))"
    using C9_length_not_guarded [OF h, of shortVRS fixture] b by simp
  moreover have "EcRecover fixture sampleHash (exact (sampleVRS @ [9]))
        = EcRecover fixture sampleHash (exact (take 65 (cells (exact (sampleVRS @ [9])))))"
    using C9_length_not_guarded [OF h, of "exact (sampleVRS @ [9])" fixture] c by simp
  ultimately show ?thesis
    using h a b c r by simp
qed

text \<open>
  Claim C10. With primitives that honour their contract, \<open>PrecompiledEcRecover\<close>
  returns on every input (no panic), its error is nil, and its output is either 32 bytes
  long or nil. The output is nil exactly when the padding check fails, the signature
  values are rejected, or the EC-recovery primitive fails: these failures show in the
  nil output only.
\<close>

theorem C10_output_shape:
  assumes "crypto_contract C"
  shows "\<exists>out. PrecompiledEcRecover C x = Inr (out, None)
           \<and> (length out = 32 \<or> out = [])
           \<and> (out = [] \<longleftrightarrow>
                 (\<not> allZero (paddingOf x)
                  \<or> \<not> ValidateSignatureValues (secp256k1N C) (vOf x - 27) (rOf x) (sOf x) False
                  \<or> (\<exists>err. Ecrecover C (hashOf x) (rsOf x @ [vOf x - 27]) = Inl err)))"
proof (cases "\<not> allZero (paddingOf x)
    \<or> \<not> ValidateSignatureValues (secp256k1N C) (vOf x - 27) (rOf x) (sOf x) False")
  case True
  then have "PrecompiledEcRecover C x = Inr ([], None)"
    by (simp only: PrecompiledEcRecover_view if_True)
  with True show ?thesis
    by blast
next
  case gate: False
  show ?thesis
  proof (cases "Ecrecover C (hashOf x) (rsOf x @ [vOf x - 27])")
    case (Inl err)
    with gate show ?thesis
      by (simp add: PrecompiledEcRecover_view)
  next
    case (Inr pubKey)
    have "length pubKey = 65"
      using assms Inr by (rule contract_pubKey)
    moreover have "length (Keccak256 C (drop 1 pubKey)) = 32"
      using assms by (rule contract_digest)
    ultimately have "andThen (go_sliceFrom pubKey 1) (\<lambda>xy.
           andThen (go_sliceFrom (Keccak256 C xy) 12) (\<lambda>addr.
           Inr (LeftPadBytes addr 32, None :: error option)))
         = Inr (addressOutput C pubKey, None)"
      by (rule derive_address)
    moreover have "PrecompiledEcRecover C x
      = andThen (go_sliceFrom pubKey 1) (\<lambda>xy.
           andThen (go_sliceFrom (Keccak256 C xy) 12) (\<lambda>addr.
           Inr (LeftPadBytes addr 32, None)))"
      using gate Inr by (simp add: PrecompiledEcRecover_view)
    ultimately have "PrecompiledEcRecover C x = Inr (addressOutput C pubKey, None)"
      by simp
    moreover have "length (addressOutput C pubKey) = 32"
      using assms by (rule length_addressOutput)
    ultimately show ?thesis
      using gate Inr by auto
  qed
qed

theorem C10_output_shape_witness:
  "crypto_contract fixture
   \<and> (\<exists>out. PrecompiledEcRecover fixture sampleInput = Inr (out, None) \<and> length out = 32)
   \<and> (\<exists>out. PrecompiledEcRecover fixture (sampleInput[63 := 28]) = Inr (out, None) \<and> out = [])"
proof -
  have c: "crypto_contract fixture"
    by (rule fixture_contract)
  have a: "PrecompiledEcRecover fixture sampleInput \<noteq> Inr ([], None)"
    by code_simp
  have b: "PrecompiledEcRecover fixture (sampleInput[63 := 28]) = Inr ([], None)"
    by code_simp
  from C10_output_shape [OF c, of sampleInput] a
  have "\<exists>out. PrecompiledEcRecover fixture sampleInput = Inr (out, None) \<and> length out = 32"
    by auto
  with b c show ?thesis
    by simp
qed

end
